theory Spec2Isabelle
  imports Complex_Main "HOL-Library.Multiset" "HOL-Library.Log_Nat"
begin

section \<open>JavaScript strings\<close>

text \<open>
  A JavaScript string is a sequence of UTF-16 code units.  \<open>String.prototype.trim\<close>
  removes leading and trailing WhiteSpace and LineTerminator code points, all of which
  lie in the basic plane.  An empty string is falsy, every other string is truthy.
\<close>

type_synonym jsstring = "nat list"

definition is_ws :: "nat \<Rightarrow> bool" where
  "is_ws c \<longleftrightarrow>
     c \<in> set [9, 10, 11, 12, 13, 32, 160, 5760, 8232, 8233, 8239, 8287, 12288, 65279]
     \<or> (8192 \<le> c \<and> c \<le> 8202)"

definition trim :: "jsstring \<Rightarrow> jsstring" where
  "trim s = rev (dropWhile is_ws (rev (dropWhile is_ws s)))"

section \<open>Rows of the two tables\<close>

datatype sender_type = Client | Tutor

record message =
  m_id :: nat
  m_content :: jsstring
  m_sender_type :: sender_type
  m_created_at :: nat
  m_conversation_id :: nat

record conversation =
  c_id :: nat
  c_client_id :: nat
  c_tutor_id :: nat
  c_tutor_name :: jsstring
  c_client_name :: jsstring
  c_client_email :: "jsstring option"
  c_created_at :: nat
  c_updated_at :: nat

text \<open>The authenticated user, as far as the chat code reads it.\<close>

record user =
  u_id :: nat
  u_email :: "jsstring option"
  u_full_name :: "jsstring option"

section \<open>The store, as the query builder is used\<close>

text \<open>
  Rows are kept in insertion order.  Identifiers are generated by the store; the
  time of a write is supplied by the caller of the model.  The table declarations are
  not part of the sources, so whether \<open>conversations\<close> carries a uniqueness constraint
  on \<open>(client_id, tutor_id)\<close> is a field of the store.  Every call answers with a pair
  of data and error; \<open>ok = False\<close> is a call the store could not serve.
\<close>

record db =
  conversations :: "conversation list"
  messages :: "message list"
  next_id :: nat
  pair_unique :: bool

record 'a response =
  r_data :: "'a option"
  r_error :: bool

definition failed :: "'a response" where
  "failed = \<lparr>r_data = None, r_error = True\<rparr>"

definition returned :: "'a \<Rightarrow> 'a response" where
  "returned x = \<lparr>r_data = Some x, r_error = False\<rparr>"

definition insert_message ::
  "bool \<Rightarrow> nat \<Rightarrow> nat \<Rightarrow> jsstring \<Rightarrow> sender_type \<Rightarrow> db \<Rightarrow> db \<times> message response" where
  "insert_message ok now cid content sender d =
     (if \<not> ok then (d, failed)
      else let row = \<lparr>m_id = next_id d, m_content = content, m_sender_type = sender,
                       m_created_at = now, m_conversation_id = cid\<rparr>
           in (d\<lparr>messages := messages d @ [row], next_id := Suc (next_id d)\<rparr>, returned row))"

definition touch :: "nat \<Rightarrow> nat \<Rightarrow> conversation \<Rightarrow> conversation" where
  "touch cid t c = (if c_id c = cid then c\<lparr>c_updated_at := t\<rparr> else c)"

definition update_updated_at :: "bool \<Rightarrow> nat \<Rightarrow> nat \<Rightarrow> db \<Rightarrow> db" where
  "update_updated_at ok t cid d =
     (if \<not> ok then d else d\<lparr>conversations := map (touch cid t) (conversations d)\<rparr>)"

section \<open>State of the two views\<close>

text \<open>
  The control path a handler took: the guard returned before the \<open>try\<close> block, the
  \<open>try\<close> block ran to its end, or the \<open>catch\<close> block ran (the error is logged and a
  toast is shown).
\<close>

datatype outcome = Skipped | Done | Failed

record chat_state =
  st_conversation :: "conversation option"
  st_messages :: "message list"
  st_loading :: bool
  st_sending :: bool
  st_toasts :: "string list"

record embedded =
  e_content :: jsstring
  e_sender_type :: sender_type
  e_created_at :: nat

record summary =
  s_conv :: conversation
  s_last_message :: "embedded option"
  s_unread_count :: nat

record inbox_state =
  in_conversations :: "summary list"
  in_selectedConversation :: "summary option"
  in_messages :: "message list"
  in_newMessage :: jsstring
  in_loading :: bool
  in_sending :: bool
  in_toasts :: "string list"

section \<open>Sending\<close>

definition sendMessage ::
  "bool \<Rightarrow> nat \<Rightarrow> user option \<Rightarrow> jsstring \<Rightarrow> chat_state \<Rightarrow> db \<Rightarrow> outcome \<times> chat_state \<times> db" where
  "sendMessage ok now usr content st d =
     (case st_conversation st of
        None \<Rightarrow> (Skipped, st, d)
      | Some conv \<Rightarrow>
          if usr = None \<or> trim content = [] then (Skipped, st, d)
          else let (d', resp) = insert_message ok now (c_id conv) (trim content) Client d
               in if r_error resp
                  then (Failed,
                        st\<lparr>st_sending := False,
                           st_toasts := st_toasts st @ [''Failed to send message. Please try again.'']\<rparr>,
                        d')
                  else (Done, st\<lparr>st_sending := False\<rparr>, d'))"

definition sendReply ::
  "bool \<Rightarrow> bool \<Rightarrow> nat \<Rightarrow> nat \<Rightarrow> inbox_state \<Rightarrow> db \<Rightarrow> outcome \<times> inbox_state \<times> db" where
  "sendReply ok_insert ok_update t_insert t_update st d =
     (case in_selectedConversation st of
        None \<Rightarrow> (Skipped, st, d)
      | Some sel \<Rightarrow>
          if trim (in_newMessage st) = [] \<or> in_sending st then (Skipped, st, d)
          else let (d1, resp) =
                     insert_message ok_insert t_insert (c_id (s_conv sel)) (trim (in_newMessage st)) Tutor d
               in if r_error resp
                  then (Failed,
                        st\<lparr>in_sending := False,
                           in_toasts := in_toasts st @ [''Failed to send reply. Please try again.'']\<rparr>,
                        d1)
                  else (Done,
                        st\<lparr>in_newMessage := [], in_sending := False\<rparr>,
                        update_updated_at ok_update t_update (c_id (s_conv sel)) d1))"

section \<open>Finding or creating the conversation\<close>

text \<open>
  \<open>maybeSingle\<close> answers with the row when the query has exactly one, with neither
  data nor error when it has none, and with an error and no data when it has several.
\<close>

definition maybeSingle :: "'a list \<Rightarrow> 'a response" where
  "maybeSingle rows =
     (case rows of
        [] \<Rightarrow> \<lparr>r_data = None, r_error = False\<rparr>
      | [r] \<Rightarrow> returned r
      | _ # _ # _ \<Rightarrow> failed)"

definition pair_rows :: "nat \<Rightarrow> nat \<Rightarrow> db \<Rightarrow> conversation list" where
  "pair_rows cl tu d = filter (\<lambda>c. c_client_id c = cl \<and> c_tutor_id c = tu) (conversations d)"

definition select_pair :: "bool \<Rightarrow> nat \<Rightarrow> nat \<Rightarrow> db \<Rightarrow> conversation response" where
  "select_pair ok cl tu d = (if \<not> ok then failed else maybeSingle (pair_rows cl tu d))"

definition truthy :: "jsstring option \<Rightarrow> bool" where
  "truthy v \<longleftrightarrow> (case v of None \<Rightarrow> False | Some s \<Rightarrow> s \<noteq> [])"

definition before_at :: "jsstring \<Rightarrow> jsstring" where
  "before_at s = takeWhile (\<lambda>c. c \<noteq> 64) s"

definition client_name :: "user \<Rightarrow> jsstring" where
  "client_name u =
     (if truthy (u_full_name u) then (case u_full_name u of Some n \<Rightarrow> n | None \<Rightarrow> [])
      else if truthy (map_option before_at (u_email u))
           then (case u_email u of Some e \<Rightarrow> before_at e | None \<Rightarrow> [])
      else map of_char ''Student'')"

definition insert_conversation ::
  "bool \<Rightarrow> nat \<Rightarrow> user \<Rightarrow> nat \<Rightarrow> jsstring \<Rightarrow> db \<Rightarrow> db \<times> conversation response" where
  "insert_conversation ok now u tid tname d =
     (if \<not> ok \<or> (pair_unique d \<and> pair_rows (u_id u) tid d \<noteq> []) then (d, failed)
      else let row = \<lparr>c_id = next_id d, c_client_id = u_id u, c_tutor_id = tid,
                       c_tutor_name = tname, c_client_name = client_name u,
                       c_client_email = u_email u, c_created_at = now, c_updated_at = now\<rparr>
           in (d\<lparr>conversations := conversations d @ [row], next_id := Suc (next_id d)\<rparr>,
               returned row))"

definition initializeConversation ::
  "bool \<Rightarrow> bool \<Rightarrow> nat \<Rightarrow> user option \<Rightarrow> nat \<Rightarrow> jsstring \<Rightarrow> chat_state \<Rightarrow> db
     \<Rightarrow> conversation option \<times> chat_state \<times> db" where
  "initializeConversation ok_select ok_insert now usr tid tname st d =
     (case usr of
        None \<Rightarrow> (None, st, d)
      | Some u \<Rightarrow>
          (case r_data (select_pair ok_select (u_id u) tid d) of
             Some existingConversation \<Rightarrow>
               (Some existingConversation,
                st\<lparr>st_conversation := Some existingConversation, st_loading := False\<rparr>,
                d)
           | None \<Rightarrow>
               let (d', resp) = insert_conversation ok_insert now u tid tname d
               in if r_error resp
                  then (None,
                        st\<lparr>st_loading := False,
                           st_toasts := st_toasts st @ [''Failed to start conversation. Please try again.'']\<rparr>,
                        d')
                  else (r_data resp, st\<lparr>st_conversation := r_data resp, st_loading := False\<rparr>, d')))"

text \<open>
  The same function cut at its two \<open>await\<close>s, for calls that overlap: a call in
  flight is about to select, about to insert, or has returned.  \<open>advance\<close> runs a call
  up to its next \<open>await\<close>, the store answering; \<open>interleave\<close> runs two calls for the same user and tutor
  against one store, the schedule saying which of the two moves next.
\<close>

datatype pending = At_select | At_insert | Returned "conversation option"

fun advance :: "nat \<Rightarrow> user \<Rightarrow> nat \<Rightarrow> jsstring \<Rightarrow> pending \<Rightarrow> db \<Rightarrow> pending \<times> db" where
  "advance now u tid tname At_select d =
     (case r_data (select_pair True (u_id u) tid d) of
        Some existingConversation \<Rightarrow> (Returned (Some existingConversation), d)
      | None \<Rightarrow> (At_insert, d))"
| "advance now u tid tname At_insert d =
     (let (d', resp) = insert_conversation True now u tid tname d
      in (Returned (if r_error resp then None else r_data resp), d'))"
| "advance now u tid tname (Returned r) d = (Returned r, d)"

fun interleave ::
  "bool list \<Rightarrow> nat \<Rightarrow> user \<Rightarrow> nat \<Rightarrow> jsstring \<Rightarrow> pending \<times> pending \<times> db \<Rightarrow> pending \<times> pending \<times> db" where
  "interleave [] now u tid tname s = s"
| "interleave (first # sched) now u tid tname (p, q, d) =
     (if first
      then let (p', d') = advance now u tid tname p d in interleave sched now u tid tname (p', q, d')
      else let (q', d') = advance now u tid tname q d in interleave sched now u tid tname (p, q', d'))"

section \<open>Listing messages\<close>

text \<open>
  The query \<open>from('messages').select('*').eq('conversation_id', id).order('created_at',
  {ascending: true})\<close> asks for the rows of one conversation in ascending order of
  \<open>created_at\<close> and for nothing else.  \<open>select_messages d cid resp\<close> says that \<open>resp\<close>
  is an answer the store may give to it: an error without data, or exactly those rows,
  ascending.
\<close>

definition messages_of :: "nat \<Rightarrow> db \<Rightarrow> message list" where
  "messages_of cid d = filter (\<lambda>m. m_conversation_id m = cid) (messages d)"

definition select_messages :: "db \<Rightarrow> nat \<Rightarrow> message list response \<Rightarrow> bool" where
  "select_messages d cid resp \<longleftrightarrow>
     (case r_data resp of
        None \<Rightarrow> r_error resp
      | Some rows \<Rightarrow>
          \<not> r_error resp \<and> mset rows = mset (messages_of cid d) \<and> sorted (map m_created_at rows))"

definition loadMessages :: "message list response \<Rightarrow> chat_state \<Rightarrow> chat_state" where
  "loadMessages resp st =
     (if r_error resp then st\<lparr>st_toasts := st_toasts st @ [''Failed to load messages.'']\<rparr>
      else st\<lparr>st_messages := (case r_data resp of None \<Rightarrow> [] | Some rows \<Rightarrow> rows)\<rparr>)"

definition Inbox_loadMessages :: "message list response \<Rightarrow> inbox_state \<Rightarrow> inbox_state" where
  "Inbox_loadMessages resp st =
     (if r_error resp then st\<lparr>in_toasts := in_toasts st @ [''Failed to load messages.'']\<rparr>
      else st\<lparr>in_messages := map (\<lambda>msg. msg\<lparr>m_sender_type := m_sender_type msg\<rparr>)
                                 (case r_data resp of None \<Rightarrow> [] | Some rows \<Rightarrow> rows)\<rparr>)"

text \<open>Rows with equal \<open>created_at\<close> come in the order in which they were inserted.\<close>

definition ties_in_insertion_order :: "db \<Rightarrow> nat \<Rightarrow> message list \<Rightarrow> bool" where
  "ties_in_insertion_order d cid rows \<longleftrightarrow>
     list_all (\<lambda>m. filter (\<lambda>x. m_created_at x = m_created_at m) rows
                 = filter (\<lambda>x. m_created_at x = m_created_at m) (messages_of cid d)) rows"

section \<open>The tutor's inbox\<close>

text \<open>
  A row of \<open>from('conversations').select('*, messages!inner(content, sender_type,
  created_at)').eq('tutor_id', userId).order('updated_at', {ascending: false})\<close>: a
  conversation with its messages embedded.  \<open>select_inbox d uid resp\<close> says that \<open>resp\<close>
  is an answer the store may give: an error without data, or the conversations of that
  tutor that have a message (the embedding is an inner join), each with its messages,
  in descending order of \<open>updated_at\<close>.
\<close>

record convo_row =
  cr_conv :: conversation
  cr_messages :: "embedded list option"

definition embed :: "message \<Rightarrow> embedded" where
  "embed m = \<lparr>e_content = m_content m, e_sender_type = m_sender_type m, e_created_at = m_created_at m\<rparr>"

definition joined :: "db \<Rightarrow> convo_row \<Rightarrow> bool" where
  "joined d convo \<longleftrightarrow>
     (case cr_messages convo of
        None \<Rightarrow> False
      | Some ms \<Rightarrow> mset ms = mset (map embed (messages_of (c_id (cr_conv convo)) d)))"

definition select_inbox :: "db \<Rightarrow> nat \<Rightarrow> convo_row list response \<Rightarrow> bool" where
  "select_inbox d uid resp \<longleftrightarrow>
     (case r_data resp of
        None \<Rightarrow> r_error resp
      | Some convos \<Rightarrow>
          \<not> r_error resp
          \<and> mset (map cr_conv convos)
              = mset (filter (\<lambda>c. c_tutor_id c = uid \<and> messages_of (c_id c) d \<noteq> []) (conversations d))
          \<and> list_all (joined d) convos
          \<and> sorted (rev (map (\<lambda>convo. c_updated_at (cr_conv convo)) convos)))"

definition summarise :: "convo_row \<Rightarrow> summary" where
  "summarise convo =
     (let conversationMessages = (case cr_messages convo of None \<Rightarrow> [] | Some ms \<Rightarrow> ms);
          lastMessage = (if length conversationMessages > 0
                         then Some (conversationMessages ! (length conversationMessages - 1))
                         else None);
          unreadCount = length (filter (\<lambda>msg. e_sender_type msg = Client) conversationMessages)
      in \<lparr>s_conv = cr_conv convo,
          s_last_message = lastMessage,
          s_unread_count = (if unreadCount > 0 then unreadCount else 0)\<rparr>)"

definition loadConversations :: "convo_row list response \<Rightarrow> inbox_state \<Rightarrow> inbox_state" where
  "loadConversations resp st =
     (if r_error resp
      then st\<lparr>in_loading := False,
              in_toasts := in_toasts st @ [''Failed to load conversations.'']\<rparr>
      else st\<lparr>in_conversations := map summarise (case r_data resp of None \<Rightarrow> [] | Some convos \<Rightarrow> convos),
              in_loading := False\<rparr>)"

section \<open>JavaScript numbers\<close>

text \<open>
  A JavaScript number is an IEEE 754 binary64 value.  A finite one is kept as the
  rational it denotes.  The sign of a zero is not kept: no operation used here tells the
  two zeros apart, and both are written out as 0.

  \<open>exponent x\<close> is the integer \<open>e\<close> with \<open>2 powi e \<le> \<bar>x\<bar> < 2 powi (e + 1)\<close>.  \<open>nearest\<close>
  rounds a rational to the nearest value with a significand of 53 bits, a tie going to
  the even significand, the unit in the last place being no smaller than \<open>2 powi (- 1074)\<close>
  (the subnormal values).  \<open>to_number\<close> turns a rounded value of magnitude \<open>2 powi 1024\<close>
  or more into an infinity.  A product, sum or difference of numbers is the exact one,
  rounded in this way.  \<open>Math.round\<close> gives the nearest integer, a half going upwards;
  its result needs no rounding.  \<open>Finite\<close> takes any rational, so what is proved for
  every argument below holds in particular for every number.
\<close>

datatype number = Finite rat | PosInfinity | NegInfinity | NaN

definition exponent :: "rat \<Rightarrow> int" where
  "exponent x = (if 1 \<le> \<bar>x\<bar> then bitlen \<lfloor>\<bar>x\<bar>\<rfloor> - 1 else - bitlen (\<lceil>1 / \<bar>x\<bar>\<rceil> - 1))"

definition round_half_even :: "rat \<Rightarrow> int" where
  "round_half_even y =
     (let f = \<lfloor>y\<rfloor>; d = y - of_int f
      in if d < 1 / 2 then f else if 1 / 2 < d then f + 1 else if even f then f else f + 1)"

definition nearest :: "rat \<Rightarrow> rat" where
  "nearest x =
     (if x = 0 then 0
      else let u = 2 powi (max (exponent x - 52) (- 1074))
           in of_int (round_half_even (x / u)) * u)"

definition to_number :: "rat \<Rightarrow> number" where
  "to_number x =
     (let y = nearest x
      in if 2 powi 1024 \<le> y then PosInfinity
         else if y \<le> - (2 powi 1024) then NegInfinity
         else Finite y)"

fun js_times :: "number \<Rightarrow> number \<Rightarrow> number" where
  "js_times NaN _ = NaN"
| "js_times _ NaN = NaN"
| "js_times (Finite a) (Finite b) = to_number (a * b)"
| "js_times (Finite a) PosInfinity = (if a = 0 then NaN else if 0 < a then PosInfinity else NegInfinity)"
| "js_times (Finite a) NegInfinity = (if a = 0 then NaN else if 0 < a then NegInfinity else PosInfinity)"
| "js_times PosInfinity (Finite b) = (if b = 0 then NaN else if 0 < b then PosInfinity else NegInfinity)"
| "js_times NegInfinity (Finite b) = (if b = 0 then NaN else if 0 < b then NegInfinity else PosInfinity)"
| "js_times PosInfinity PosInfinity = PosInfinity"
| "js_times PosInfinity NegInfinity = NegInfinity"
| "js_times NegInfinity PosInfinity = NegInfinity"
| "js_times NegInfinity NegInfinity = PosInfinity"

fun js_plus :: "number \<Rightarrow> number \<Rightarrow> number" where
  "js_plus NaN _ = NaN"
| "js_plus _ NaN = NaN"
| "js_plus (Finite a) (Finite b) = to_number (a + b)"
| "js_plus (Finite a) PosInfinity = PosInfinity"
| "js_plus (Finite a) NegInfinity = NegInfinity"
| "js_plus PosInfinity (Finite b) = PosInfinity"
| "js_plus NegInfinity (Finite b) = NegInfinity"
| "js_plus PosInfinity PosInfinity = PosInfinity"
| "js_plus PosInfinity NegInfinity = NaN"
| "js_plus NegInfinity PosInfinity = NaN"
| "js_plus NegInfinity NegInfinity = NegInfinity"

fun js_negate :: "number \<Rightarrow> number" where
  "js_negate (Finite a) = Finite (- a)"
| "js_negate PosInfinity = NegInfinity"
| "js_negate NegInfinity = PosInfinity"
| "js_negate NaN = NaN"

definition js_minus :: "number \<Rightarrow> number \<Rightarrow> number" where
  "js_minus x y = js_plus x (js_negate y)"

fun Math_round :: "number \<Rightarrow> number" where
  "Math_round (Finite x) = Finite (of_int \<lfloor>x + 1 / 2\<rfloor>)"
| "Math_round PosInfinity = PosInfinity"
| "Math_round NegInfinity = NegInfinity"
| "Math_round NaN = NaN"

section \<open>The split of a payment\<close>

text \<open>
  Amounts are in pence.  The literal \<open>0.15\<close> is the number nearest to 15/100, and a
  product of several factors is taken from the left, each step rounded.
\<close>

definition platformFeePercent :: number where
  "platformFeePercent = to_number (15 / 100)"

definition tutorAmount :: "number \<Rightarrow> number \<Rightarrow> number" where
  "tutorAmount hourlyRate lessonQuantity =
     Math_round (js_times (js_times (js_times hourlyRate lessonQuantity) (Finite 100))
                          (js_minus (Finite 1) platformFeePercent))"

definition platformFee :: "number \<Rightarrow> number \<Rightarrow> number" where
  "platformFee hourlyRate lessonQuantity =
     Math_round (js_times (js_times (js_times hourlyRate lessonQuantity) (Finite 100))
                          platformFeePercent)"

definition totalAmount :: "number \<Rightarrow> number \<Rightarrow> number" where
  "totalAmount hourlyRate lessonQuantity =
     js_plus (tutorAmount hourlyRate lessonQuantity) (platformFee hourlyRate lessonQuantity)"

record payment =
  p_amount :: number
  p_platform_fee :: number
  p_tutor_amount :: number
  p_lesson_quantity :: number

definition payment_row :: "number \<Rightarrow> number \<Rightarrow> payment" where
  "payment_row hourlyRate lessonQuantity =
     \<lparr>p_amount = totalAmount hourlyRate lessonQuantity,
      p_platform_fee = platformFee hourlyRate lessonQuantity,
      p_tutor_amount = tutorAmount hourlyRate lessonQuantity,
      p_lesson_quantity = lessonQuantity\<rparr>"

section \<open>Sample data\<close>

definition alice :: user where
  "alice = \<lparr>u_id = 1, u_email = Some (map of_char ''al@x.org''), u_full_name = None\<rparr>"

definition conv7 :: conversation where
  "conv7 = \<lparr>c_id = 7, c_client_id = 1, c_tutor_id = 2, c_tutor_name = map of_char ''Bo'',
            c_client_name = map of_char ''al'', c_client_email = Some (map of_char ''al@x.org''),
            c_created_at = 10, c_updated_at = 10\<rparr>"

definition conv8 :: conversation where
  "conv8 = \<lparr>c_id = 8, c_client_id = 3, c_tutor_id = 2, c_tutor_name = map of_char ''Bo'',
            c_client_name = map of_char ''cy'', c_client_email = None,
            c_created_at = 12, c_updated_at = 30\<rparr>"

definition conv9 :: conversation where
  "conv9 = \<lparr>c_id = 9, c_client_id = 4, c_tutor_id = 2, c_tutor_name = map of_char ''Bo'',
            c_client_name = map of_char ''di'', c_client_email = None,
            c_created_at = 13, c_updated_at = 40\<rparr>"

definition msg_a :: message where
  "msg_a = \<lparr>m_id = 20, m_content = map of_char ''Hello'', m_sender_type = Client,
            m_created_at = 15, m_conversation_id = 7\<rparr>"

definition msg_b :: message where
  "msg_b = \<lparr>m_id = 21, m_content = map of_char ''Hi'', m_sender_type = Tutor,
            m_created_at = 15, m_conversation_id = 7\<rparr>"

definition msg_c :: message where
  "msg_c = \<lparr>m_id = 22, m_content = map of_char ''Anyone?'', m_sender_type = Client,
            m_created_at = 30, m_conversation_id = 8\<rparr>"

definition empty_db :: "bool \<Rightarrow> db" where
  "empty_db uniq = \<lparr>conversations = [], messages = [], next_id = 0, pair_unique = uniq\<rparr>"

definition db1 :: db where
  "db1 = \<lparr>conversations = [conv7, conv8, conv9], messages = [msg_a, msg_b, msg_c],
          next_id = 23, pair_unique = False\<rparr>"

definition chat0 :: chat_state where
  "chat0 = \<lparr>st_conversation = Some conv7, st_messages = [], st_loading = False,
            st_sending = False, st_toasts = []\<rparr>"

definition summary7 :: summary where
  "summary7 = \<lparr>s_conv = conv7, s_last_message = None, s_unread_count = 0\<rparr>"

definition inbox0 :: inbox_state where
  "inbox0 = \<lparr>in_conversations = [], in_selectedConversation = Some summary7, in_messages = [],
             in_newMessage = [32, 9, 10], in_loading = False, in_sending = False, in_toasts = []\<rparr>"

definition row7 :: convo_row where
  "row7 = \<lparr>cr_conv = conv7, cr_messages = Some [embed msg_b, embed msg_a]\<rparr>"

definition row8 :: convo_row where
  "row8 = \<lparr>cr_conv = conv8, cr_messages = Some [embed msg_c]\<rparr>"

definition inbox_answer :: "convo_row list response" where
  "inbox_answer = returned [row8, row7]"

definition blank :: jsstring where
  "blank = [32, 9, 10]"

section \<open>Blank content\<close>

lemma trim_blank: "list_all is_ws s \<Longrightarrow> trim s = []"
proof -
  assume "list_all is_ws s"
  then have "dropWhile is_ws s = []"
    by (simp add: list_all_iff)
  then show "trim s = []"
    by (simp only: trim_def dropWhile.simps rev.simps)
qed

lemma trim_empty_iff: "trim s = [] \<longleftrightarrow> list_all is_ws s"
proof
  assume e: "trim s = []"
  have "dropWhile is_ws s = []"
  proof (rule ccontr)
    assume ne: "dropWhile is_ws s \<noteq> []"
    then have h: "\<not> is_ws (hd (dropWhile is_ws s))"
      by (rule hd_dropWhile)
    from e have "\<forall>x \<in> set (rev (dropWhile is_ws s)). is_ws x"
      by (simp add: trim_def)
    then have "\<forall>x \<in> set (dropWhile is_ws s). is_ws x"
      by simp
    with ne h show False
      by (metis hd_in_set)
  qed
  then show "list_all is_ws s"
    by (simp add: list_all_iff)
next
  assume "list_all is_ws s"
  then show "trim s = []"
    by (rule trim_blank)
qed

lemma blank_ws: "list_all is_ws blank"
  by (simp add: blank_def is_ws_def)

text \<open>
  C2, as the code has it: with content that is empty or consists of white space only,
  \<open>sendMessage\<close> and \<open>sendReply\<close> return at their guard.  The store and the state of
  the view are left as they were: no row is written, and no error is raised or shown.
\<close>

theorem blank_content_is_skipped:
  assumes "list_all is_ws content"
  shows "sendMessage ok now usr content st d = (Skipped, st, d)
       \<and> sendReply ok_insert ok_update t_insert t_update (ist\<lparr>in_newMessage := content\<rparr>) d
           = (Skipped, ist\<lparr>in_newMessage := content\<rparr>, d)"
  using assms by (simp add: sendMessage_def sendReply_def trim_blank split: option.splits)

text \<open>C2 at a space, a tab and a line feed.\<close>

theorem blank_content_is_skipped_witness:
  "list_all is_ws blank
   \<and> sendMessage True 20 (Some alice) blank chat0 db1 = (Skipped, chat0, db1)
   \<and> sendReply True True 20 21 (inbox0\<lparr>in_newMessage := blank\<rparr>) db1
       = (Skipped, inbox0\<lparr>in_newMessage := blank\<rparr>, db1)"
  using blank_content_is_skipped [OF blank_ws, of True 20 "Some alice" chat0 db1 True True 20 21 inbox0]
    blank_ws
  by simp

text \<open>
  C2 as stated asks for a failure with an error.  On blank content neither handler
  reaches its \<open>catch\<close> block, and neither shows a toast.
\<close>

theorem blank_content_raises_no_error:
  "fst (sendMessage True 20 (Some alice) blank chat0 db1) \<noteq> Failed
   \<and> st_toasts (fst (snd (sendMessage True 20 (Some alice) blank chat0 db1))) = []
   \<and> fst (sendReply True True 20 21 inbox0 db1) \<noteq> Failed
   \<and> in_toasts (fst (snd (sendReply True True 20 21 inbox0 db1))) = []"
  by (simp add: sendMessage_def sendReply_def trim_def blank_def is_ws_def chat0_def inbox0_def)

section \<open>The conversation's \<open>updated_at\<close> after a send\<close>

lemma sendMessage_keeps_conversations:
  "conversations (snd (snd (sendMessage ok now usr content st d))) = conversations d"
  by (simp add: sendMessage_def insert_message_def Let_def split: option.splits)

text \<open>
  C3 at a client sending "Hello" at time 20 into conversation 7, last updated at 10:
  the message is written and \<open>updated_at\<close> stays 10.  The tutor's reply at the same
  place, with the update made at 21, sets it to 21; when that update is not served, the
  reply is written all the same and the handler ends without an error.
\<close>

theorem client_send_leaves_updated_at:
  "(case sendMessage True 20 (Some alice) (map of_char ''Hello'') chat0 db1 of
      (r, st, d) \<Rightarrow> r = Done \<and> length (messages d) = Suc (length (messages db1))
          \<and> map c_updated_at (conversations d) = [10, 30, 40])
   \<and> (case sendReply True True 20 21 (inbox0\<lparr>in_newMessage := map of_char ''Hello''\<rparr>) db1 of
      (r, st, d) \<Rightarrow> r = Done \<and> length (messages d) = Suc (length (messages db1))
          \<and> map c_updated_at (conversations d) = [21, 30, 40])
   \<and> (case sendReply True False 20 21 (inbox0\<lparr>in_newMessage := map of_char ''Hello''\<rparr>) db1 of
      (r, st, d) \<Rightarrow> r = Done \<and> length (messages d) = Suc (length (messages db1))
          \<and> in_toasts st = [] \<and> map c_updated_at (conversations d) = [10, 30, 40])"
  by (simp add: sendMessage_def sendReply_def insert_message_def update_updated_at_def touch_def
      returned_def Let_def trim_def is_ws_def chat0_def inbox0_def db1_def conv7_def conv8_def
      conv9_def summary7_def)

section \<open>Two calls for one pair\<close>

lemma advance_twice:
  "(case advance now u tid tname At_select d of
      (p, d1) \<Rightarrow> advance now u tid tname p d1)
   = (case initializeConversation True True now (Some u) tid tname st d of
        (r, st', d') \<Rightarrow> (Returned r, d'))"
  by (simp add: initializeConversation_def Let_def split: option.splits prod.splits)

lemma first_call_creates:
  assumes "pair_rows (u_id u) tid d = []"
  shows "\<exists>row st1 d1. initializeConversation True True t1 (Some u) tid tname st d = (Some row, st1, d1)
            \<and> pair_rows (u_id u) tid d1 = [row]"
  using assms
  by (simp add: initializeConversation_def select_pair_def maybeSingle_def insert_conversation_def
      returned_def Let_def pair_rows_def)

lemma call_finds:
  assumes "pair_rows (u_id u) tid d = [row]"
  shows "initializeConversation True ok t (Some u) tid tname st d
           = (Some row, st\<lparr>st_conversation := Some row, st_loading := False\<rparr>, d)"
  using assms
  by (simp add: initializeConversation_def select_pair_def maybeSingle_def returned_def)

text \<open>
  C1, as the code has it: \<open>initializeConversation\<close> selects and then inserts.  When
  the store holds at most one conversation of the client with the tutor and answers both
  calls, two calls of which the second starts after the first has returned give the same
  conversation, and the store then holds exactly that one row for the pair.
\<close>

theorem consecutive_calls_share_one_row:
  assumes "length (pair_rows (u_id u) tid d) \<le> 1"
  shows "case initializeConversation True True ta (Some u) tid tname sta d of
           (ra, sta', da) \<Rightarrow>
             (case initializeConversation True True tb (Some u) tid tname stb da of
                (rb, stb', db) \<Rightarrow> rb = ra \<and> map Some (pair_rows (u_id u) tid db) = [ra])"
proof (cases "pair_rows (u_id u) tid d")
  case Nil
  from first_call_creates [OF Nil] obtain row st1 d1 where
    a: "initializeConversation True True ta (Some u) tid tname sta d = (Some row, st1, d1)"
    and b: "pair_rows (u_id u) tid d1 = [row]"
    by blast
  show ?thesis
    by (simp add: a call_finds [OF b] b)
next
  case (Cons row rest)
  with assms have one: "pair_rows (u_id u) tid d = [row]"
    by simp
  show ?thesis
    by (simp add: call_finds [OF one] one)
qed

text \<open>C1 for two consecutive calls on an empty store.\<close>

theorem consecutive_calls_share_one_row_witness:
  "length (pair_rows (u_id alice) 2 (empty_db False)) \<le> 1
   \<and> (case initializeConversation True True 5 (Some alice) 2 (map of_char ''Bo'') chat0 (empty_db False) of
        (r1, st1, d1) \<Rightarrow>
          (case initializeConversation True True 6 (Some alice) 2 (map of_char ''Bo'') chat0 d1 of
             (r2, st2, d2) \<Rightarrow> r2 = r1 \<and> map Some (pair_rows (u_id alice) 2 d2) = [r1]))"
proof -
  have h: "length (pair_rows (u_id alice) 2 (empty_db False)) \<le> 1"
    by (simp add: pair_rows_def empty_db_def)
  from consecutive_calls_share_one_row
         [OF h, where ta = 5 and tb = 6 and tname = "map of_char ''Bo''" and sta = chat0 and stb = chat0] h
  show ?thesis by simp
qed

text \<open>
  C1 as stated fails for two calls that overlap, each selecting before the other
  inserts.  Without a uniqueness constraint in the store both insert, and the pair has
  two rows.  With the constraint the second insert is refused and that call returns
  nothing: the conflict is an error, it is not answered by fetching the existing row.
\<close>

theorem overlapping_calls_are_check_then_insert:
  "(case interleave [True, False, True, False] 5 alice 2 (map of_char ''Bo'')
           (At_select, At_select, empty_db False) of
      (p, q, d) \<Rightarrow> length (pair_rows 1 2 d) = 2 \<and> map c_id (conversations d) = [0, 1])
   \<and> (case interleave [True, False, True, False] 5 alice 2 (map of_char ''Bo'')
           (At_select, At_select, empty_db True) of
      (p, q, d) \<Rightarrow> length (pair_rows 1 2 d) = 1 \<and> q = Returned None)"
  by (simp add: select_pair_def maybeSingle_def insert_conversation_def pair_rows_def
      returned_def failed_def Let_def empty_db_def alice_def)

section \<open>The order of listed messages\<close>

lemma select_messages_rows:
  assumes "select_messages d cid resp" and "\<not> r_error resp"
  obtains rows where "r_data resp = Some rows" and "mset rows = mset (messages_of cid d)"
    and "sorted (map m_created_at rows)"
  using assms by (auto simp: select_messages_def split: option.splits)

text \<open>
  C4, as the code has it: whatever answer the store gives without error to the query of
  \<open>loadMessages\<close>, the messages shown are exactly those of the conversation, in
  non-decreasing order of \<open>created_at\<close>; they are the empty list exactly when the
  conversation has no message, and no error is shown.  The inbox's \<open>loadMessages\<close>
  shows the same list.  The query names no second sort key, so nothing is said about
  the order of messages with equal \<open>created_at\<close>.
\<close>

theorem loadMessages_ascending:
  assumes "select_messages d cid resp" and "\<not> r_error resp"
  shows "sorted (map m_created_at (st_messages (loadMessages resp st)))
       \<and> mset (st_messages (loadMessages resp st)) = mset (messages_of cid d)
       \<and> (st_messages (loadMessages resp st) = []) = (messages_of cid d = [])
       \<and> st_toasts (loadMessages resp st) = st_toasts st
       \<and> in_messages (Inbox_loadMessages resp ist) = st_messages (loadMessages resp st)
       \<and> in_toasts (Inbox_loadMessages resp ist) = in_toasts ist"
proof -
  from assms obtain rows where r: "r_data resp = Some rows"
    and m: "mset rows = mset (messages_of cid d)" and s: "sorted (map m_created_at rows)"
    by (rule select_messages_rows)
  have l: "st_messages (loadMessages resp st) = rows"
    using assms(2) r by (simp add: loadMessages_def)
  have e: "(rows = []) = (messages_of cid d = [])"
    using m by (metis mset_zero_iff)
  have i: "in_messages (Inbox_loadMessages resp ist) = rows"
    using assms(2) r by (simp add: Inbox_loadMessages_def)
  show ?thesis
    using assms(2) l m s e i by (simp add: loadMessages_def Inbox_loadMessages_def)
qed

lemma answer_a: "select_messages db1 7 (returned [msg_a, msg_b]) \<and> \<not> r_error (returned [msg_a, msg_b])"
  by (simp add: select_messages_def returned_def messages_of_def db1_def msg_a_def msg_b_def msg_c_def)

lemma answer_none: "select_messages db1 9 (returned []) \<and> \<not> r_error (returned ([] :: message list))"
  by (simp add: select_messages_def returned_def messages_of_def db1_def msg_a_def msg_b_def msg_c_def)

text \<open>
  C4 on conversation 7, which has two messages, and on conversation 9, which has none.
\<close>

theorem loadMessages_ascending_witness:
  "select_messages db1 7 (returned [msg_a, msg_b]) \<and> \<not> r_error (returned [msg_a, msg_b])
   \<and> st_messages (loadMessages (returned [msg_a, msg_b]) chat0) = [msg_a, msg_b]
   \<and> sorted (map m_created_at (st_messages (loadMessages (returned [msg_a, msg_b]) chat0)))
   \<and> select_messages db1 9 (returned []) \<and> messages_of 9 db1 = []
   \<and> st_messages (loadMessages (returned []) chat0) = []
   \<and> st_toasts (loadMessages (returned []) chat0) = st_toasts chat0"
  using loadMessages_ascending [of db1 7 "returned [msg_a, msg_b]" chat0 inbox0]
    loadMessages_ascending [of db1 9 "returned []" chat0 inbox0] answer_a answer_none
  by (simp add: loadMessages_def returned_def)

text \<open>
  C4 as stated also fixes the order of ties.  Conversation 7 has two messages with the
  same \<open>created_at\<close>; the answer that lists the later inserted one first is in
  ascending order of \<open>created_at\<close>, so it answers the query, and both views show it
  as it comes.
\<close>

theorem equal_created_at_in_either_order:
  "select_messages db1 7 (returned [msg_b, msg_a])
   \<and> st_messages (loadMessages (returned [msg_b, msg_a]) chat0) = [msg_b, msg_a]
   \<and> in_messages (Inbox_loadMessages (returned [msg_b, msg_a]) inbox0) = [msg_b, msg_a]
   \<and> messages_of 7 db1 = [msg_a, msg_b]
   \<and> m_created_at msg_a = m_created_at msg_b
   \<and> \<not> ties_in_insertion_order db1 7 [msg_b, msg_a]"
  by (simp add: select_messages_def returned_def messages_of_def db1_def msg_a_def msg_b_def msg_c_def
      loadMessages_def Inbox_loadMessages_def ties_in_insertion_order_def)

section \<open>What the inbox lists\<close>

lemma select_inbox_rows:
  assumes "select_inbox d uid resp" and "\<not> r_error resp"
  obtains convos where "r_data resp = Some convos"
    and "mset (map cr_conv convos)
           = mset (filter (\<lambda>c. c_tutor_id c = uid \<and> messages_of (c_id c) d \<noteq> []) (conversations d))"
    and "list_all (joined d) convos"
    and "sorted (rev (map (\<lambda>convo. c_updated_at (cr_conv convo)) convos))"
  using assms by (auto simp: select_inbox_def split: option.splits)

lemma loaded_conversations:
  "\<not> r_error resp \<Longrightarrow> r_data resp = Some convos
     \<Longrightarrow> in_conversations (loadConversations resp st) = map summarise convos"
  by (simp add: loadConversations_def)

lemma s_conv_summarise: "s_conv (summarise convo) = cr_conv convo"
  by (simp add: summarise_def Let_def)

lemma unread_summarise:
  "s_unread_count (summarise convo)
     = length (filter (\<lambda>msg. e_sender_type msg = Client)
                 (case cr_messages convo of None \<Rightarrow> [] | Some ms \<Rightarrow> ms))"
  by (simp add: summarise_def Let_def)

lemma listed_conversations:
  assumes "select_inbox d uid resp" and "\<not> r_error resp"
  shows "set (map s_conv (in_conversations (loadConversations resp st)))
           = {c \<in> set (conversations d). c_tutor_id c = uid \<and> messages_of (c_id c) d \<noteq> []}"
proof -
  from assms obtain convos where r: "r_data resp = Some convos"
    and m: "mset (map cr_conv convos)
           = mset (filter (\<lambda>c. c_tutor_id c = uid \<and> messages_of (c_id c) d \<noteq> []) (conversations d))"
    by (rule select_inbox_rows)
  have "map s_conv (in_conversations (loadConversations resp st)) = map cr_conv convos"
    using assms(2) r by (simp add: loaded_conversations s_conv_summarise cong: map_cong)
  moreover have "set (map cr_conv convos)
      = set (filter (\<lambda>c. c_tutor_id c = uid \<and> messages_of (c_id c) d \<noteq> []) (conversations d))"
    using m by (rule mset_eq_setD)
  ultimately show ?thesis
    by simp
qed

text \<open>
  C5, as the code has it: whatever answer the store gives without error to the query of
  \<open>loadConversations\<close>, the summaries shown are exactly the conversations of the
  listing tutor that have a message, each once, in descending order of \<open>updated_at\<close>:
  of two of them, one updated more recently than the other comes before it.
\<close>

theorem inbox_most_recent_first:
  assumes "select_inbox d uid resp" and "\<not> r_error resp"
  shows "mset (map s_conv (in_conversations (loadConversations resp st)))
           = mset (filter (\<lambda>c. c_tutor_id c = uid \<and> messages_of (c_id c) d \<noteq> []) (conversations d))
       \<and> sorted_wrt (\<lambda>a b. c_updated_at (s_conv b) \<le> c_updated_at (s_conv a))
           (in_conversations (loadConversations resp st))
       \<and> list_all (\<lambda>s. c_tutor_id (s_conv s) = uid) (in_conversations (loadConversations resp st))"
proof -
  from assms obtain convos where r: "r_data resp = Some convos"
    and m: "mset (map cr_conv convos)
           = mset (filter (\<lambda>c. c_tutor_id c = uid \<and> messages_of (c_id c) d \<noteq> []) (conversations d))"
    and s: "sorted (rev (map (\<lambda>convo. c_updated_at (cr_conv convo)) convos))"
    by (rule select_inbox_rows)
  have l: "in_conversations (loadConversations resp st) = map summarise convos"
    using assms(2) r by (rule loaded_conversations)
  have c: "map s_conv (map summarise convos) = map cr_conv convos"
    by (simp add: s_conv_summarise cong: map_cong)
  from s have "sorted_wrt (\<lambda>a b. c_updated_at (cr_conv b) \<le> c_updated_at (cr_conv a)) convos"
    by (simp add: sorted_wrt_rev sorted_wrt_map flip: rev_map)
  then have o: "sorted_wrt (\<lambda>a b. c_updated_at (s_conv b) \<le> c_updated_at (s_conv a)) (map summarise convos)"
    by (simp add: sorted_wrt_map s_conv_summarise)
  have "\<forall>s \<in> set (in_conversations (loadConversations resp st)). c_tutor_id (s_conv s) = uid"
    using listed_conversations [OF assms, of st] by auto
  then have t: "list_all (\<lambda>s. c_tutor_id (s_conv s) = uid) (in_conversations (loadConversations resp st))"
    by (simp add: list_all_iff)
  have e: "mset (map s_conv (in_conversations (loadConversations resp st)))
           = mset (filter (\<lambda>c. c_tutor_id c = uid \<and> messages_of (c_id c) d \<noteq> []) (conversations d))"
    unfolding l c by (rule m)
  show ?thesis
    using e o t by (simp add: l)
qed

text \<open>
  C6: the unread count of every summary shown is the number of messages of that
  conversation in the store whose sender is the client.  It depends on nothing else.
\<close>

theorem unread_count_is_client_messages:
  assumes "select_inbox d uid resp" and "\<not> r_error resp"
    and "s \<in> set (in_conversations (loadConversations resp st))"
  shows "s_unread_count s
           = length (filter (\<lambda>m. m_sender_type m = Client) (messages_of (c_id (s_conv s)) d))"
proof -
  from assms(1,2) obtain convos where r: "r_data resp = Some convos"
    and j: "list_all (joined d) convos"
    by (rule select_inbox_rows)
  from assms(2,3) r obtain convo where c: "convo \<in> set convos" and e: "s = summarise convo"
    by (auto simp: loaded_conversations)
  from j c have "joined d convo"
    by (simp add: list_all_iff)
  then obtain ms where ms: "cr_messages convo = Some ms"
    and p: "mset ms = mset (map embed (messages_of (c_id (cr_conv convo)) d))"
    by (auto simp: joined_def split: option.splits)
  have a: "size (filter_mset (\<lambda>msg. e_sender_type msg = Client) (mset xs))
             = length (filter (\<lambda>msg. e_sender_type msg = Client) xs)" for xs
    by (metis mset_filter size_mset)
  have "length (filter (\<lambda>msg. e_sender_type msg = Client) ms)
          = length (filter (\<lambda>msg. e_sender_type msg = Client)
                      (map embed (messages_of (c_id (cr_conv convo)) d)))"
    using a [of ms] a [of "map embed (messages_of (c_id (cr_conv convo)) d)"] p by simp
  also have "\<dots> = length (filter (\<lambda>m. m_sender_type m = Client) (messages_of (c_id (cr_conv convo)) d))"
    by (simp add: filter_map comp_def embed_def)
  finally show ?thesis
    by (simp add: e unread_summarise ms s_conv_summarise)
qed

text \<open>
  C9: a conversation without any message is not among the summaries shown, whoever its
  tutor is.
\<close>

theorem inbox_omits_conversations_without_messages:
  assumes "select_inbox d uid resp" and "\<not> r_error resp"
    and "messages_of (c_id c) d = []"
  shows "c \<notin> set (map s_conv (in_conversations (loadConversations resp st)))"
  using assms(3) listed_conversations [OF assms(1,2), of st] by simp

lemma inbox_answer_ok: "select_inbox db1 2 inbox_answer \<and> \<not> r_error inbox_answer"
  by (simp add: select_inbox_def inbox_answer_def returned_def joined_def messages_of_def db1_def
      row7_def row8_def conv7_def conv8_def conv9_def msg_a_def msg_b_def msg_c_def embed_def)

lemma loaded_inbox_answer:
  "in_conversations (loadConversations inbox_answer inbox0) = [summarise row8, summarise row7]"
  by (simp add: loadConversations_def inbox_answer_def returned_def)

text \<open>
  C5 on the sample store: of the tutor's three conversations, 8 and 7 have messages and
  are listed, updated at 30 and at 10.
\<close>

theorem inbox_most_recent_first_witness:
  "select_inbox db1 2 inbox_answer \<and> \<not> r_error inbox_answer
   \<and> mset (map s_conv (in_conversations (loadConversations inbox_answer inbox0)))
       = mset (filter (\<lambda>c. c_tutor_id c = 2 \<and> messages_of (c_id c) db1 \<noteq> []) (conversations db1))
   \<and> sorted_wrt (\<lambda>a b. c_updated_at (s_conv b) \<le> c_updated_at (s_conv a))
        (in_conversations (loadConversations inbox_answer inbox0))
   \<and> map (\<lambda>s. c_updated_at (s_conv s)) (in_conversations (loadConversations inbox_answer inbox0)) = [30, 10]"
  using inbox_most_recent_first [of db1 2 inbox_answer inbox0] inbox_answer_ok
  by (simp add: loaded_inbox_answer s_conv_summarise row7_def row8_def conv7_def conv8_def)

text \<open>
  C5 as stated lists the user's conversations, the more recently updated first.  In the
  sample store the tutor's most recently updated conversation is 9, which has no
  message: the listing is 8, 7, and no answer of the store puts 9 into it.
\<close>

theorem newest_conversation_not_listed:
  "conv9 \<in> set (conversations db1) \<and> c_tutor_id conv9 = 2
   \<and> c_updated_at conv8 < c_updated_at conv9
   \<and> select_inbox db1 2 inbox_answer \<and> \<not> r_error inbox_answer
   \<and> map s_conv (in_conversations (loadConversations inbox_answer inbox0)) = [conv8, conv7]
   \<and> \<not> (\<exists>resp st. select_inbox db1 2 resp \<and> \<not> r_error resp
               \<and> conv9 \<in> set (map s_conv (in_conversations (loadConversations resp st))))"
proof -
  have a: "conv9 \<in> set (conversations db1) \<and> c_tutor_id conv9 = 2 \<and> c_updated_at conv8 < c_updated_at conv9"
    by (simp add: db1_def conv9_def conv8_def)
  have b: "map s_conv (in_conversations (loadConversations inbox_answer inbox0)) = [conv8, conv7]"
    by (simp add: loaded_inbox_answer s_conv_summarise row7_def row8_def)
  have e: "messages_of (c_id conv9) db1 = []"
    by (simp add: messages_of_def db1_def conv9_def msg_a_def msg_b_def msg_c_def)
  have c: "\<not> (\<exists>resp st. select_inbox db1 2 resp \<and> \<not> r_error resp
               \<and> conv9 \<in> set (map s_conv (in_conversations (loadConversations resp st))))"
  proof
    assume "\<exists>resp st. select_inbox db1 2 resp \<and> \<not> r_error resp
               \<and> conv9 \<in> set (map s_conv (in_conversations (loadConversations resp st)))"
    then obtain resp st where h: "select_inbox db1 2 resp" "\<not> r_error resp"
      and i: "conv9 \<in> set (map s_conv (in_conversations (loadConversations resp st)))"
      by blast
    from i listed_conversations [OF h, of st] have "messages_of (c_id conv9) db1 \<noteq> []"
      by simp
    with e show False by simp
  qed
  show ?thesis
    using a b c inbox_answer_ok by simp
qed

text \<open>
  C6 on conversation 7 of the sample store: one message of the client, one of the tutor.
\<close>

theorem unread_count_is_client_messages_witness:
  "select_inbox db1 2 inbox_answer \<and> \<not> r_error inbox_answer
   \<and> summarise row7 \<in> set (in_conversations (loadConversations inbox_answer inbox0))
   \<and> s_unread_count (summarise row7)
       = length (filter (\<lambda>m. m_sender_type m = Client) (messages_of (c_id (s_conv (summarise row7))) db1))
   \<and> s_unread_count (summarise row7) = 1"
proof -
  have m: "summarise row7 \<in> set (in_conversations (loadConversations inbox_answer inbox0))"
    by (simp add: loaded_inbox_answer)
  have u: "s_unread_count (summarise row7) = 1"
    by (simp add: unread_summarise row7_def embed_def msg_a_def msg_b_def)
  from unread_count_is_client_messages [of db1 2 inbox_answer "summarise row7" inbox0]
    inbox_answer_ok m u
  show ?thesis by simp
qed

text \<open>
  C9 on conversation 9 of the sample store, which belongs to the tutor and has no message.
\<close>

theorem inbox_omits_conversations_without_messages_witness:
  "select_inbox db1 2 inbox_answer \<and> \<not> r_error inbox_answer
   \<and> conv9 \<in> set (conversations db1) \<and> c_tutor_id conv9 = 2
   \<and> messages_of (c_id conv9) db1 = []
   \<and> conv9 \<notin> set (map s_conv (in_conversations (loadConversations inbox_answer inbox0)))"
proof -
  have e: "messages_of (c_id conv9) db1 = []"
    by (simp add: messages_of_def db1_def conv9_def msg_a_def msg_b_def msg_c_def)
  have t: "conv9 \<in> set (conversations db1) \<and> c_tutor_id conv9 = 2"
    by (simp add: db1_def conv9_def)
  from inbox_omits_conversations_without_messages [of db1 2 inbox_answer conv9 inbox0]
    inbox_answer_ok e t
  show ?thesis by simp
qed

section \<open>Rounding to a number\<close>

lemma exponent_bounds:
  assumes "x \<noteq> 0"
  shows "2 powi (exponent x) \<le> \<bar>x\<bar> \<and> \<bar>x\<bar> < 2 powi (exponent x + 1)"
proof (cases "1 \<le> \<bar>x\<bar>")
  case True
  define n where "n = \<lfloor>\<bar>x\<bar>\<rfloor>"
  define l where "l = bitlen n"
  have n1: "1 \<le> n" using True by (simp add: n_def)
  then have b: "2 ^ nat (l - 1) \<le> n \<and> n < 2 ^ nat l"
    unfolding l_def using bitlen_bounds [of n] by simp
  have l1: "1 \<le> l"
    using n1 by (simp add: l_def bitlen_alt_def)
  have e: "exponent x = l - 1"
    using True by (simp add: exponent_def n_def l_def)
  have lo: "(2::rat) ^ nat (l - 1) \<le> of_int n"
    using b by (metis of_int_le_iff of_int_numeral of_int_power)
  have "of_int n \<le> \<bar>x\<bar>" by (simp add: n_def)
  with lo have A: "(2::rat) ^ nat (l - 1) \<le> \<bar>x\<bar>" by (rule order_trans)
  have "n + 1 \<le> 2 ^ nat l" using b by simp
  then have hi: "(of_int (n + 1) :: rat) \<le> 2 ^ nat l"
    by (metis of_int_le_iff of_int_numeral of_int_power)
  have "\<bar>x\<bar> < of_int (n + 1)" unfolding n_def by linarith
  from this hi have B: "\<bar>x\<bar> < (2::rat) ^ nat l" by (rule less_le_trans)
  show ?thesis
    using A B l1 by (simp add: e power_int_def)
next
  case False
  define y where "y = 1 / \<bar>x\<bar>"
  define c where "c = \<lceil>y\<rceil>"
  define j where "j = bitlen (c - 1)"
  have xp: "0 < \<bar>x\<bar>" using assms by simp
  have y1: "1 < y" using False xp by (simp add: y_def)
  then have c2: "2 \<le> c" unfolding c_def by linarith
  then have b: "2 ^ nat (j - 1) \<le> c - 1 \<and> c - 1 < 2 ^ nat j"
    unfolding j_def using bitlen_bounds [of "c - 1"] by simp
  have j1: "1 \<le> j"
    using c2 by (simp add: j_def bitlen_alt_def)
  have e: "exponent x = - j"
    using False by (simp add: exponent_def y_def c_def j_def)
  have lo: "(2::rat) ^ nat (j - 1) \<le> of_int (c - 1)"
    using b by (metis of_int_le_iff of_int_numeral of_int_power)
  have "of_int (c - 1) < y" unfolding c_def by linarith
  with lo have A: "(2::rat) ^ nat (j - 1) < y" by (rule le_less_trans)
  have "c \<le> 2 ^ nat j" using b by simp
  then have hi: "(of_int c :: rat) \<le> 2 ^ nat j"
    by (metis of_int_le_iff of_int_numeral of_int_power)
  have "y \<le> of_int c" unfolding c_def by linarith
  from this hi have B: "y \<le> (2::rat) ^ nat j" by (rule order_trans)
  have x_eq: "\<bar>x\<bar> = 1 / y" using xp by (simp add: y_def)
  have yp: "0 < y" using y1 by simp
  have C: "1 / (2::rat) ^ nat j \<le> \<bar>x\<bar>"
    unfolding x_eq using B yp by (simp add: frac_le)
  have D: "\<bar>x\<bar> < 1 / (2::rat) ^ nat (j - 1)"
    unfolding x_eq using A by (simp add: frac_less2)
  have p1: "(2::rat) powi (- j) = 1 / 2 ^ nat j"
    using j1 by (simp add: power_int_def field_simps)
  have p2: "(2::rat) powi (1 - j) = 1 / 2 ^ nat (j - 1)"
  proof (cases "j = 1")
    case True then show ?thesis by simp
  next
    case False
    with j1 have "1 - j < 0" by simp
    moreover have "nat (j - 1) = nat (- (1 - j))" by simp
    ultimately show ?thesis by (simp add: power_int_def field_simps)
  qed
  show ?thesis
    using C D by (simp add: e p1 p2)
qed

lemma exponent_unique:
  assumes "2 powi e \<le> \<bar>x\<bar>" and "\<bar>x\<bar> < 2 powi (e + 1)"
  shows "exponent x = e"
proof -
  have "(0::rat) < 2 powi e" by simp
  from this assms(1) have "0 < \<bar>x\<bar>" by (rule less_le_trans)
  then have x0: "x \<noteq> 0" by simp
  note b = exponent_bounds [OF x0]
  have "\<not> exponent x < e"
  proof
    assume "exponent x < e"
    then have "exponent x + 1 \<le> e" by simp
    then have "(2::rat) powi (exponent x + 1) \<le> 2 powi e"
      by (intro power_int_increasing) simp_all
    with b assms(1) show False by simp
  qed
  moreover have "\<not> e < exponent x"
  proof
    assume "e < exponent x"
    then have "e + 1 \<le> exponent x" by simp
    then have "(2::rat) powi (e + 1) \<le> 2 powi (exponent x)"
      by (intro power_int_increasing) simp_all
    with b assms(2) show False by simp
  qed
  ultimately show ?thesis by simp
qed

lemma round_half_even_near:
  assumes "\<bar>y - of_int m\<bar> < 1 / 2"
  shows "round_half_even y = m"
proof (cases "of_int m \<le> y")
  case True
  then have f: "\<lfloor>y\<rfloor> = m" using assms by (intro floor_unique) auto
  show ?thesis using assms True by (simp add: round_half_even_def f Let_def)
next
  case False
  then have f: "\<lfloor>y\<rfloor> = m - 1" using assms by (intro floor_unique) auto
  have "1 / 2 < y - of_int (m - 1)" using assms False by auto
  then show ?thesis using False by (auto simp add: round_half_even_def f Let_def)
qed

lemma round_half_even_tie:
  assumes "y = of_int m + 1 / 2"
  shows "round_half_even y = (if even m then m else m + 1)"
proof -
  have f: "\<lfloor>y\<rfloor> = m" using assms by (intro floor_unique) auto
  have d: "y - of_int m = 1 / 2" using assms by simp
  show ?thesis unfolding round_half_even_def Let_def f d by simp
qed

lemma round_half_even_of_int: "round_half_even (of_int m) = m"
  by (rule round_half_even_near) simp

lemma nearest_eqI:
  assumes "2 powi e \<le> \<bar>x\<bar>" and "\<bar>x\<bar> < 2 powi (e + 1)"
    and "k = max (e - 52) (- 1074)"
    and "round_half_even (x / 2 powi k) = m"
  shows "nearest x = of_int m * 2 powi k"
proof -
  have "(0::rat) < 2 powi e" by simp
  from this assms(1) have "0 < \<bar>x\<bar>" by (rule less_le_trans)
  then have x0: "x \<noteq> 0" by simp
  show ?thesis
    using x0 assms(3,4) by (simp add: nearest_def exponent_unique [OF assms(1,2)] Let_def)
qed

lemma to_number_eqI:
  assumes "2 powi e \<le> \<bar>x\<bar>" and "\<bar>x\<bar> < 2 powi (e + 1)"
    and "k = max (e - 52) (- 1074)"
    and "round_half_even (x / 2 powi k) = m"
    and "r = of_int m * 2 powi k"
    and "\<bar>r\<bar> < 2 powi 1024"
  shows "to_number x = Finite r"
  using assms(6) nearest_eqI [OF assms(1-4)] assms(5)
  by (simp add: to_number_def Let_def abs_less_iff not_le)

lemma nearest_of_int:
  assumes "\<bar>i\<bar> \<le> 2 ^ 53"
  shows "nearest (of_int i) = of_int i"
proof (cases "i = 0")
  case True
  then show ?thesis by (simp add: nearest_def)
next
  case False
  define x :: rat where "x = of_int i"
  define e where "e = exponent x"
  define k where "k = e - 52"
  have x0: "x \<noteq> 0" using False by (simp add: x_def)
  have b: "2 powi e \<le> \<bar>x\<bar> \<and> \<bar>x\<bar> < 2 powi (e + 1)"
    unfolding e_def by (rule exponent_bounds [OF x0])
  have ax: "\<bar>x\<bar> = of_int \<bar>i\<bar>" by (simp add: x_def)
  have "1 \<le> \<bar>i\<bar>" using False by simp
  then have "(of_int 1 :: rat) \<le> of_int \<bar>i\<bar>" by (simp only: of_int_le_iff)
  then have x1: "1 \<le> \<bar>x\<bar>" by (simp add: ax)
  have "(of_int \<bar>i\<bar> :: rat) \<le> of_int (2 ^ 53)" using assms by (simp only: of_int_le_iff)
  then have xu: "\<bar>x\<bar> \<le> 2 powi 53" by (simp add: ax)
  have e0: "0 \<le> e"
  proof (rule ccontr)
    assume "\<not> 0 \<le> e"
    then have "e + 1 \<le> 0" by simp
    then have "(2::rat) powi (e + 1) \<le> 2 powi 0" by (intro power_int_increasing) simp_all
    with b x1 show False by simp
  qed
  have e53: "e \<le> 53"
  proof (rule ccontr)
    assume "\<not> e \<le> 53"
    then have "54 \<le> e" by simp
    then have "(2::rat) powi 54 \<le> 2 powi e" by (intro power_int_increasing) simp_all
    with b xu show False by simp
  qed
  have kmax: "max (e - 52) (- 1074) = k" using e0 by (simp add: k_def)
  have "\<exists>m. x = of_int m * 2 powi k"
  proof (cases "k \<le> 0")
    case True
    have "(2::rat) ^ nat (- k) * 2 powi k = 1"
      using True by (simp add: power_int_def power_inverse field_simps)
    then have "x = of_int (i * 2 ^ nat (- k)) * 2 powi k"
      by (simp add: x_def mult.assoc)
    then show ?thesis ..
  next
    case False
    with e53 have k1: "k = 1" by (simp add: k_def)
    then have "e = 53" by (simp add: k_def)
    with b xu have "\<bar>x\<bar> = 2 powi 53" by simp
    then have "(of_int \<bar>i\<bar> :: rat) = of_int (2 ^ 53)" by (simp add: ax)
    then have "\<bar>i\<bar> = 2 ^ 53" by (simp only: of_int_eq_iff)
    then have "even i" by (metis even_abs_add_iff even_add even_numeral even_power zero_less_numeral)
    then have "i = (i div 2) * 2" by simp
    then have "x = of_int (i div 2) * 2 powi k"
      unfolding x_def k1 by (metis of_int_mult of_int_numeral power_int_1_right)
    then show ?thesis ..
  qed
  then obtain m where m: "x = of_int m * 2 powi k" ..
  have "x / 2 powi k = of_int m" by (simp add: m)
  then have "nearest x = of_int m * 2 powi k"
    using x0 by (simp add: nearest_def e_def [symmetric] kmax round_half_even_of_int)
  then show ?thesis by (simp add: m [symmetric] x_def [symmetric])
qed

lemma to_number_of_int:
  assumes "\<bar>i\<bar> \<le> 2 ^ 53"
  shows "to_number (of_int i) = Finite (of_int i)"
proof -
  have "(of_int \<bar>i\<bar> :: rat) \<le> of_int (2 ^ 53)" using assms by (simp only: of_int_le_iff)
  then have "\<bar>of_int i :: rat\<bar> \<le> 2 ^ 53" by simp
  moreover have "(2::rat) ^ 53 < 2 powi 1024" by simp
  ultimately have "\<bar>of_int i :: rat\<bar> < 2 powi 1024" by (rule le_less_trans)
  then show ?thesis
    by (simp add: to_number_def nearest_of_int [OF assms] abs_less_iff not_le)
qed

lemma Math_round_Finite:
  assumes "Math_round x = Finite a"
  shows "\<exists>i. a = of_int i"
  using assms by (cases x) auto

section \<open>The payment row\<close>

lemma fee_percent:
  "to_number (15 / 100) = Finite (5404319552844595 / 36028797018963968)"
  apply (rule to_number_eqI [where e = "(- 3)" and k = "(- 55)" and m = "5404319552844595"])
       apply simp
      apply simp
     apply simp
    apply (rule round_half_even_near)
    apply simp
   apply simp
  apply simp
  done

lemma tutor_share:
  "js_minus (Finite 1) (Finite (5404319552844595 / 36028797018963968)) = Finite (7656119366529843 / 9007199254740992)"
  unfolding js_minus_def js_negate.simps js_plus.simps
  apply (rule to_number_eqI [where e = "(- 1)" and k = "(- 53)" and m = "7656119366529843"])
       apply simp
      apply simp
     apply simp
    apply (rule round_half_even_near)
    apply simp
   apply simp
  apply simp
  done

lemma literal_085:
  "to_number (85 / 100) = Finite (7656119366529843 / 9007199254740992)"
  apply (rule to_number_eqI [where e = "(- 1)" and k = "(- 53)" and m = "7656119366529843"])
       apply simp
      apply simp
     apply simp
    apply (rule round_half_even_near)
    apply simp
   apply simp
  apply simp
  done

lemma rate_16_9:
  "to_number (169 / 10) = Finite (2378463553205043 / 140737488355328)"
  apply (rule to_number_eqI [where e = "4" and k = "(- 48)" and m = "4756927106410086"])
       apply simp
      apply simp
     apply simp
    apply (rule round_half_even_near)
    apply simp
   apply simp
  apply simp
  done

lemma modest_rate_times_quantity:
  "js_times (Finite (2378463553205043 / 140737488355328)) (Finite 1) = Finite (2378463553205043 / 140737488355328)"
  unfolding js_times.simps
  apply (rule to_number_eqI [where e = "4" and k = "(- 48)" and m = "4756927106410086"])
       apply simp
      apply simp
     apply simp
    apply (rule round_half_even_near)
    apply simp
   apply simp
  apply simp
  done

lemma modest_pence:
  "js_times (Finite (2378463553205043 / 140737488355328)) (Finite 100) = Finite (7432698603765759 / 4398046511104)"
  unfolding js_times.simps
  apply (rule to_number_eqI [where e = "10" and k = "(- 42)" and m = "7432698603765759"])
       apply simp
      apply simp
     apply simp
    apply (rule round_half_even_near)
    apply simp
   apply simp
  apply simp
  done

lemma modest_tutor_product:
  "js_times (Finite (7432698603765759 / 4398046511104)) (Finite (7656119366529843 / 9007199254740992)) = Finite (6317793813200895 / 4398046511104)"
  unfolding js_times.simps
  apply (rule to_number_eqI [where e = "10" and k = "(- 42)" and m = "6317793813200895"])
       apply simp
      apply simp
     apply simp
    apply (rule round_half_even_near)
    apply simp
   apply simp
  apply simp
  done

lemma modest_fee_product:
  "js_times (Finite (7432698603765759 / 4398046511104)) (Finite (5404319552844595 / 36028797018963968)) = Finite (4459619162259455 / 17592186044416)"
  unfolding js_times.simps
  apply (rule to_number_eqI [where e = "7" and k = "(- 45)" and m = "8919238324518910"])
       apply simp
      apply simp
     apply simp
    apply (rule round_half_even_near)
    apply simp
   apply simp
  apply simp
  done

lemma large_rate_times_quantity:
  "js_times (Finite 50430016423529) (Finite 3) = Finite 151290049270587"
  unfolding js_times.simps
  apply (rule to_number_eqI [where e = "47" and k = "(- 5)" and m = "4841281576658784"])
       apply simp
      apply simp
     apply simp
    apply (rule round_half_even_near)
    apply simp
   apply simp
  apply simp
  done

lemma large_pence:
  "js_times (Finite 151290049270587) (Finite 100) = Finite 15129004927058700"
  unfolding js_times.simps
  apply (rule to_number_eqI [where e = "53" and k = "1" and m = "7564502463529350"])
       apply simp
      apply simp
     apply simp
    apply (rule round_half_even_near)
    apply simp
   apply simp
  apply simp
  done

lemma large_tutor_product:
  "js_times (Finite 15129004927058700) (Finite (7656119366529843 / 9007199254740992)) = Finite 12859654187999894"
  unfolding js_times.simps
  apply (rule to_number_eqI [where e = "53" and k = "1" and m = "6429827093999947"])
       apply simp
      apply simp
     apply simp
    apply (rule round_half_even_near)
    apply simp
   apply simp
  apply simp
  done

lemma large_fee_product:
  "js_times (Finite 15129004927058700) (Finite (5404319552844595 / 36028797018963968)) = Finite 2269350739058805"
  unfolding js_times.simps
  apply (rule to_number_eqI [where e = "51" and k = "(- 1)" and m = "4538701478117610"])
       apply simp
      apply simp
     apply simp
    apply (rule round_half_even_near)
    apply simp
   apply simp
  apply simp
  done

lemma large_sum:
  "js_plus (Finite 12859654187999894) (Finite 2269350739058805) = Finite 15129004927058700"
  unfolding js_plus.simps
  apply (rule to_number_eqI [where e = "53" and k = "1" and m = "7564502463529350"])
       apply simp
      apply simp
     apply simp
    apply (subst round_half_even_tie [where m = "7564502463529349"])
     apply simp
    apply simp
   apply simp
  apply simp
  done

lemma tutor_share_is_085: "js_minus (Finite 1) platformFeePercent = to_number (85 / 100)"
  by (simp only: platformFeePercent_def fee_percent tutor_share literal_085)

text \<open>
  C10, as the code has it: the fee is \<open>Math.round\<close> of the product of rate, quantity,
  100 and 0.15, the tutor's amount that of the product with \<open>1 - 0.15\<close>, which is the
  number 0.85, all products being products of numbers.  When both are finite and their
  sum is at most \<open>2 ^ 53\<close> in magnitude, the amount on the payment row is exactly their
  sum.
\<close>

theorem payment_split_adds_up:
  assumes "p_tutor_amount (payment_row hourlyRate lessonQuantity) = Finite a"
    and "p_platform_fee (payment_row hourlyRate lessonQuantity) = Finite b"
    and "\<bar>a + b\<bar> \<le> 2 ^ 53"
  shows "p_amount (payment_row hourlyRate lessonQuantity) = Finite (a + b)
       \<and> Finite b = Math_round (js_times (js_times (js_times hourlyRate lessonQuantity) (Finite 100))
                                          (to_number (15 / 100)))
       \<and> Finite a = Math_round (js_times (js_times (js_times hourlyRate lessonQuantity) (Finite 100))
                                          (to_number (85 / 100)))"
proof -
  have t: "tutorAmount hourlyRate lessonQuantity = Finite a"
    using assms(1) by (simp add: payment_row_def)
  have f: "platformFee hourlyRate lessonQuantity = Finite b"
    using assms(2) by (simp add: payment_row_def)
  from t obtain i where i: "a = of_int i"
    unfolding tutorAmount_def by (blast dest: Math_round_Finite)
  from f obtain j where j: "b = of_int j"
    unfolding platformFee_def by (blast dest: Math_round_Finite)
  have s: "a + b = of_int (i + j)"
    by (simp add: i j)
  have "(of_int \<bar>i + j\<bar> :: rat) \<le> of_int (2 ^ 53)"
    using assms(3) by (simp add: s)
  then have "\<bar>i + j\<bar> \<le> 2 ^ 53"
    by (simp only: of_int_le_iff)
  then have "to_number (a + b) = Finite (a + b)"
    unfolding s by (rule to_number_of_int)
  then have "p_amount (payment_row hourlyRate lessonQuantity) = Finite (a + b)"
    by (simp add: payment_row_def totalAmount_def t f)
  moreover have "Finite b = Math_round (js_times (js_times (js_times hourlyRate lessonQuantity) (Finite 100))
                                          (to_number (15 / 100)))"
    using f by (simp add: platformFee_def platformFeePercent_def)
  moreover have "Finite a = Math_round (js_times (js_times (js_times hourlyRate lessonQuantity) (Finite 100))
                                          (to_number (85 / 100)))"
    using t by (simp only: tutorAmount_def tutor_share_is_085)
  ultimately show ?thesis
    by simp
qed

lemma Math_round_eqI:
  assumes "r = of_int n" and "of_int n \<le> x + 1 / 2" and "x + 1 / 2 < of_int n + 1"
  shows "Math_round (Finite x) = Finite r"
proof -
  have "\<lfloor>x + 1 / 2\<rfloor> = n"
    using assms(2,3) by (rule floor_unique)
  then show ?thesis
    by (simp add: assms(1))
qed

lemma modest_tutor_rounded:
  "Math_round (Finite (6317793813200895 / 4398046511104)) = Finite 1436"
  by (rule Math_round_eqI [where n = 1436]) simp_all

lemma modest_fee_rounded:
  "Math_round (Finite (4459619162259455 / 17592186044416)) = Finite 253"
  by (rule Math_round_eqI [where n = 253]) simp_all

lemma large_tutor_rounded:
  "Math_round (Finite 12859654187999894) = Finite 12859654187999894"
  by (rule Math_round_eqI [where n = 12859654187999894]) simp_all

lemma large_fee_rounded:
  "Math_round (Finite 2269350739058805) = Finite 2269350739058805"
  by (rule Math_round_eqI [where n = 2269350739058805]) simp_all

lemma modest_tutor: "tutorAmount (to_number (169 / 10)) (Finite 1) = Finite 1436"
  by (simp only: tutorAmount_def platformFeePercent_def fee_percent tutor_share rate_16_9
      modest_rate_times_quantity modest_pence modest_tutor_product modest_tutor_rounded)

lemma modest_fee: "platformFee (to_number (169 / 10)) (Finite 1) = Finite 253"
  by (simp only: platformFee_def platformFeePercent_def fee_percent rate_16_9
      modest_rate_times_quantity modest_pence modest_fee_product modest_fee_rounded)

text \<open>
  C10 at a rate of 16.9 for one lesson: 1436 and 253 pence, and 1689 in all.
\<close>

theorem payment_split_adds_up_witness:
  "p_tutor_amount (payment_row (to_number (169 / 10)) (Finite 1)) = Finite 1436
   \<and> p_platform_fee (payment_row (to_number (169 / 10)) (Finite 1)) = Finite 253
   \<and> \<bar>(1436::rat) + 253\<bar> \<le> 2 ^ 53
   \<and> p_amount (payment_row (to_number (169 / 10)) (Finite 1)) = Finite 1689"
proof -
  have a: "p_tutor_amount (payment_row (to_number (169 / 10)) (Finite 1)) = Finite 1436"
    by (simp add: payment_row_def modest_tutor del: js_times.simps)
  have b: "p_platform_fee (payment_row (to_number (169 / 10)) (Finite 1)) = Finite 253"
    by (simp add: payment_row_def modest_fee)
  have c: "\<bar>(1436::rat) + 253\<bar> \<le> 2 ^ 53"
    by simp
  from payment_split_adds_up [OF a b c] a b c show ?thesis
    by simp
qed

lemma large_tutor: "tutorAmount (Finite 50430016423529) (Finite 3) = Finite 12859654187999894"
  by (simp only: tutorAmount_def platformFeePercent_def fee_percent tutor_share
      large_rate_times_quantity large_pence large_tutor_product large_tutor_rounded)

lemma large_fee: "platformFee (Finite 50430016423529) (Finite 3) = Finite 2269350739058805"
  by (simp only: platformFee_def platformFeePercent_def fee_percent
      large_rate_times_quantity large_pence large_fee_product large_fee_rounded)

text \<open>
  C10 as stated holds for every rate and quantity.  At a rate of 50430016423529 for
  three lessons the two parts are integers whose sum is odd and lies above \<open>2 ^ 53\<close>,
  so it is not a number: the amount on the payment row is the even neighbour, one penny
  more than the sum of the parts.
\<close>

theorem stored_amount_can_miss_the_sum:
  "p_tutor_amount (payment_row (Finite 50430016423529) (Finite 3)) = Finite 12859654187999894
   \<and> p_platform_fee (payment_row (Finite 50430016423529) (Finite 3)) = Finite 2269350739058805
   \<and> p_amount (payment_row (Finite 50430016423529) (Finite 3)) = Finite 15129004927058700
   \<and> p_amount (payment_row (Finite 50430016423529) (Finite 3))
       \<noteq> Finite (12859654187999894 + 2269350739058805)"
proof -
  have t: "p_tutor_amount (payment_row (Finite 50430016423529) (Finite 3)) = Finite 12859654187999894"
    by (simp add: payment_row_def large_tutor)
  have f: "p_platform_fee (payment_row (Finite 50430016423529) (Finite 3)) = Finite 2269350739058805"
    by (simp add: payment_row_def large_fee)
  have "totalAmount (Finite 50430016423529) (Finite 3) = Finite 15129004927058700"
    by (simp only: totalAmount_def large_tutor large_fee large_sum)
  then have s: "p_amount (payment_row (Finite 50430016423529) (Finite 3)) = Finite 15129004927058700"
    by (simp add: payment_row_def)
  show ?thesis
    by (simp add: t f s)
qed

end
